theory Spec2Isabelle
  imports Complex_Main "HOL-Library.Log_Nat" "HOL-Library.Sublist" "HOL-Library.Word"
begin

section \<open>The booster image processor\<close>

text \<open>
  The program is one function, \<^verbatim>\<open>process_booster_images\<close>: it lists a directory, keeps
  the names ending in an image extension, and for each of them opens the image, converts
  it to RGBA, crops it to the bounding box of its non-transparent region, resizes it to a
  height of 300 and saves it over the original. The embedding keeps the source's names
  and its order of steps. What the source calls (the file system, the Python float
  arithmetic, the Pillow image library) is modelled beside it: the arithmetic and the
  geometry exactly, the codecs and the resampling filter as parameters.
\<close>

subsection \<open>Module constants\<close>

definition BOOSTERS_DIR :: string where
  "BOOSTERS_DIR = ''public/assets/boosters/''"

definition TARGET_HEIGHT :: nat where
  "TARGET_HEIGHT = 300"

subsection \<open>Python strings and paths\<close>

text \<open>
  File names are modelled as ASCII strings. \<^verbatim>\<open>str.lower\<close> maps the letters A to Z to a to z
  and leaves every other character alone; \<^verbatim>\<open>str.endswith\<close> with a tuple asks whether one
  of the suffixes ends the string.
\<close>

definition lower_char :: "char \<Rightarrow> char" where
  "lower_char c =
     (if 65 \<le> (of_char c :: nat) \<and> (of_char c :: nat) \<le> 90
      then char_of ((of_char c :: nat) + 32) else c)"

definition str_lower :: "string \<Rightarrow> string" where
  "str_lower s = map lower_char s"

definition endswith :: "string \<Rightarrow> string list \<Rightarrow> bool" where
  "endswith s sufs = list_ex (\<lambda>suf. suffix suf s) sufs"

text \<open>\<^verbatim>\<open>os.path.join\<close> of two components, on POSIX.\<close>

definition os_path_join :: "string \<Rightarrow> string \<Rightarrow> string" where
  "os_path_join a b =
     (if prefix ''/'' b then b
      else if a = [] \<or> suffix ''/'' a then a @ b
      else a @ ''/'' @ b)"

text \<open>
  The extension part of \<^verbatim>\<open>os.path.splitext\<close>: from the last dot of the last path
  component, unless that component has nothing but dots before it.
\<close>

definition splitext_ext :: "string \<Rightarrow> string" where
  "splitext_ext p =
     (let base = rev (takeWhile (\<lambda>c. c \<noteq> CHR ''/'') (rev p));
          tail = rev (takeWhile (\<lambda>c. c \<noteq> CHR ''.'') (rev base));
          stem = take (length base - Suc (length tail)) base
      in if CHR ''.'' \<notin> set base \<or> list_all (\<lambda>c. c = CHR ''.'') stem then []
         else CHR ''.'' # tail)"

subsection \<open>Errors\<close>

text \<open>
  The exceptions that can reach the handler of the loop body; all of them derive from
  \<^verbatim>\<open>Exception\<close>. \<open>error_text\<close> is \<^verbatim>\<open>str(e)\<close> up to the operating system's wording.
\<close>

datatype error =
    FileNotFoundError
  | IsADirectoryError
  | PermissionError
  | UnidentifiedImageError
  | OSError string
  | ValueError string
  | ZeroDivisionError
  | OtherException string

fun error_text :: "error \<Rightarrow> string" where
  "error_text FileNotFoundError = ''No such file or directory''"
| "error_text IsADirectoryError = ''Is a directory''"
| "error_text PermissionError = ''Permission denied''"
| "error_text UnidentifiedImageError = ''cannot identify image file''"
| "error_text (OSError m) = m"
| "error_text (ValueError m) = m"
| "error_text ZeroDivisionError = ''division by zero''"
| "error_text (OtherException m) = m"

subsection \<open>Python float arithmetic\<close>

text \<open>
  A finite double is a rational number. \<open>round_double\<close> rounds a rational to the nearest
  number with a 53-bit significand, ties to even, as IEEE 754 binary64 does in its normal
  range (overflow and subnormal numbers are far from the sizes of images and are not
  modelled). Python's \<^verbatim>\<open>int / int\<close> and \<^verbatim>\<open>int * float\<close> are correctly rounded operations
  on doubles, and \<^verbatim>\<open>int(x)\<close> truncates toward zero.
\<close>

type_synonym double = rat

definition ilog2 :: "rat \<Rightarrow> int" where
  "ilog2 q =
     (let (a, b) = quotient_of q; d = bitlen a - bitlen b
      in if q < 2 powi d then d - 1 else d)"

definition round_half_even :: "rat \<Rightarrow> int" where
  "round_half_even s =
     (let f = \<lfloor>s\<rfloor>; r = s - of_int f
      in if r < 1 / 2 then f
         else if 1 / 2 < r then f + 1
         else if even f then f else f + 1)"

definition round_double :: "rat \<Rightarrow> double" where
  "round_double q =
     (if q = 0 then 0
      else let e = ilog2 \<bar>q\<bar> - 52
           in of_int (round_half_even (q / 2 powi e)) * 2 powi e)"

definition py_float :: "int \<Rightarrow> double" where
  "py_float n = round_double (of_int n)"

definition py_truediv :: "int \<Rightarrow> int \<Rightarrow> error + double" where
  "py_truediv a b =
     (if b = 0 then Inl ZeroDivisionError
      else Inr (round_double (of_int a / of_int b)))"

definition py_float_mul :: "double \<Rightarrow> double \<Rightarrow> double" where
  "py_float_mul x y = round_double (x * y)"

definition py_int :: "double \<Rightarrow> int" where
  "py_int x = (if 0 \<le> x then \<lfloor>x\<rfloor> else \<lceil>x\<rceil>)"

subsection \<open>Images\<close>

text \<open>
  A Pillow image: its mode, its size (\<open>xsize\<close> by \<open>ysize\<close>) and its pixels, addressed by
  column \<open>x\<close> and row \<open>y\<close>. A pixel has four 8-bit bands; modes with fewer bands leave the
  others unused.
\<close>

record pixel =
  red :: "8 word"
  green :: "8 word"
  blue :: "8 word"
  alpha :: "8 word"

record image =
  mode :: string
  xsize :: nat
  ysize :: nat
  pix :: "nat \<Rightarrow> nat \<Rightarrow> pixel"

type_synonym box = "nat \<times> nat \<times> nat \<times> nat"

definition img_size :: "image \<Rightarrow> nat \<times> nat" where
  "img_size img = (xsize img, ysize img)"

definition transparent :: pixel where
  "transparent = \<lparr>red = 0, green = 0, blue = 0, alpha = 0\<rparr>"

text \<open>
  \<^verbatim>\<open>getbbox()\<close>, in the source's words, "returns (left, upper, right, lower) bounding box
  of the non-transparent region", or \<^verbatim>\<open>None\<close> when there is none. In a mode with an alpha
  band a pixel has data when its alpha is not zero; in the other modes when any band is
  not zero. The box runs from the first column and row with data to one past the last.
\<close>

definition has_alpha :: "string \<Rightarrow> bool" where
  "has_alpha m = (m \<in> set [''RGBA'', ''RGBa'', ''LA'', ''La'', ''PA''])"

definition has_data :: "image \<Rightarrow> nat \<Rightarrow> nat \<Rightarrow> bool" where
  "has_data img x y =
     (let p = pix img x y
      in if has_alpha (mode img) then alpha p \<noteq> 0
         else red p \<noteq> 0 \<or> green p \<noteq> 0 \<or> blue p \<noteq> 0 \<or> alpha p \<noteq> 0)"

definition data_columns :: "image \<Rightarrow> nat list" where
  "data_columns img =
     filter (\<lambda>x. list_ex (\<lambda>y. has_data img x y) [0..<ysize img]) [0..<xsize img]"

definition data_rows :: "image \<Rightarrow> nat list" where
  "data_rows img =
     filter (\<lambda>y. list_ex (\<lambda>x. has_data img x y) [0..<xsize img]) [0..<ysize img]"

definition getbbox :: "image \<Rightarrow> box option" where
  "getbbox img =
     (let xs = data_columns img; ys = data_rows img
      in if ys = [] then None
         else Some (hd xs, hd ys, Suc (last xs), Suc (last ys)))"

text \<open>
  \<^verbatim>\<open>crop(box)\<close> for a box with left \<open>\<le>\<close> right and upper \<open>\<le>\<close> lower, which is what
  \<open>getbbox\<close> returns: the region of that size, reading transparent black outside the image.
\<close>

definition crop :: "image \<Rightarrow> box \<Rightarrow> image" where
  "crop img b =
     (case b of (left, upper, right, lower) \<Rightarrow>
        \<lparr>mode = mode img, xsize = right - left, ysize = lower - upper,
         pix = (\<lambda>x y. if left + x < xsize img \<and> upper + y < ysize img
                       then pix img (left + x) (upper + y) else transparent)\<rparr>)"

subsection \<open>The file system and the image library\<close>

text \<open>
  The directory as the program sees it: the names \<^verbatim>\<open>os.listdir\<close> returns (or nothing, when
  the directory cannot be listed), what each path holds, and the lines printed so far.
\<close>

datatype node =
    Directory
  | File (readable: bool) (writable: bool) (content: "8 word list")

datatype report =
    NoImagesFound
  | ProcessingStart
  | Skipping string
  | Processed string nat nat
  | ErrorProcessing string error
  | ProcessingComplete

record world =
  entries :: "string list option"
  files :: "string \<rightharpoonup> node"
  stdout :: "report list"

text \<open>
  The parts of Pillow that the program's logic does not depend on are parameters: the
  decoder behind \<^verbatim>\<open>Image.open\<close>, the pixel conversion of \<^verbatim>\<open>convert\<close>, the Lanczos filter
  of \<^verbatim>\<open>resize\<close> and the encoders behind \<^verbatim>\<open>save\<close>. A failing encoder reports the bytes it
  had written.
\<close>

record pil =
  decoder :: "8 word list \<Rightarrow> error + image"
  converter :: "image \<Rightarrow> string \<Rightarrow> nat \<Rightarrow> nat \<Rightarrow> pixel"
  lanczos :: "image \<Rightarrow> nat \<times> nat \<Rightarrow> nat \<Rightarrow> nat \<Rightarrow> pixel"
  encoder :: "string \<Rightarrow> image \<Rightarrow> (error \<times> 8 word list) + 8 word list"

definition os_listdir :: "world \<Rightarrow> error + string list" where
  "os_listdir w = (case entries w of None \<Rightarrow> Inl FileNotFoundError | Some names \<Rightarrow> Inr names)"

definition print :: "report \<Rightarrow> world \<Rightarrow> world" where
  "print r w = w\<lparr>stdout := stdout w @ [r]\<rparr>"

definition pil_open :: "pil \<Rightarrow> world \<Rightarrow> string \<Rightarrow> error + image" where
  "pil_open env w filepath =
     (case files w filepath of
        None \<Rightarrow> Inl FileNotFoundError
      | Some Directory \<Rightarrow> Inl IsADirectoryError
      | Some (File rd wr bytes) \<Rightarrow>
          if rd then decoder env bytes else Inl PermissionError)"

text \<open>\<^verbatim>\<open>convert(mode)\<close> returns a copy of the same size in the requested mode.\<close>

definition convert :: "pil \<Rightarrow> image \<Rightarrow> string \<Rightarrow> image" where
  "convert env img m =
     \<lparr>mode = m, xsize = xsize img, ysize = ysize img, pix = converter env img m\<rparr>"

text \<open>
  \<^verbatim>\<open>resize(size, LANCZOS)\<close> returns an image of the requested size in the same mode (a
  copy when the size does not change) and refuses a size with a zero.
\<close>

definition resize :: "pil \<Rightarrow> image \<Rightarrow> nat \<times> nat \<Rightarrow> error + image" where
  "resize env img sz =
     (if fst sz = 0 \<or> snd sz = 0 then Inl (ValueError ''height and width must be > 0'')
      else if img_size img = sz then Inr img
      else Inr \<lparr>mode = mode img, xsize = fst sz, ysize = snd sz, pix = lanczos env img sz\<rparr>)"

text \<open>
  \<^verbatim>\<open>save(filepath)\<close> takes the format from the extension of the path, opens the path for
  writing, which empties an existing file, and runs the format's encoder. The JPEG
  encoder writes the modes of its table only, and RGBA is not one of them.
\<close>

definition save_format :: "string \<Rightarrow> string option" where
  "save_format filepath =
     (let ext = str_lower (splitext_ext filepath)
      in if ext = ''.png'' then Some ''PNG''
         else if ext = ''.jpg'' \<or> ext = ''.jpeg'' then Some ''JPEG''
         else None)"

definition jpeg_rawmodes :: "string list" where
  "jpeg_rawmodes = [''1'', ''L'', ''RGB'', ''RGBX'', ''CMYK'', ''YCbCr'']"

definition save_handler :: "pil \<Rightarrow> string \<Rightarrow> image \<Rightarrow> (error \<times> 8 word list) + 8 word list" where
  "save_handler env fmt img =
     (if fmt = ''JPEG'' \<and> mode img \<notin> set jpeg_rawmodes
      then Inl (OSError (''cannot write mode '' @ mode img @ '' as JPEG''), [])
      else encoder env fmt img)"

definition save :: "pil \<Rightarrow> world \<Rightarrow> string \<Rightarrow> image \<Rightarrow> error option \<times> world" where
  "save env w filepath img =
     (case save_format filepath of
        None \<Rightarrow> (Some (ValueError (''unknown file extension: '' @ str_lower (splitext_ext filepath))), w)
      | Some fmt \<Rightarrow>
          (case files w filepath of
             Some Directory \<Rightarrow> (Some IsADirectoryError, w)
           | Some (File rd wr old) \<Rightarrow>
               if \<not> wr then (Some PermissionError, w)
               else (case save_handler env fmt img of
                       Inl (e, written) \<Rightarrow>
                         (Some e, w\<lparr>files := (files w)(filepath \<mapsto> File rd wr written)\<rparr>)
                     | Inr bytes \<Rightarrow>
                         (None, w\<lparr>files := (files w)(filepath \<mapsto> File rd wr bytes)\<rparr>))
           | None \<Rightarrow>
               (case save_handler env fmt img of
                  Inl (e, written) \<Rightarrow> (Some e, w)
                | Inr bytes \<Rightarrow>
                    (None, w\<lparr>files := (files w)(filepath \<mapsto> File True True bytes)\<rparr>))))"

subsection \<open>The program\<close>

text \<open>The list comprehension of line 11: the listed names that end in an image extension.\<close>

definition is_image_name :: "string \<Rightarrow> bool" where
  "is_image_name f = endswith (str_lower f) [''.png'', ''.jpg'', ''.jpeg'']"

definition image_files :: "string list \<Rightarrow> string list" where
  "image_files names = filter is_image_name names"


text \<open>Lines 25 to 29: the crop to the bounding box, or the image as it is.\<close>

definition cropped_img :: "image \<Rightarrow> image" where
  "cropped_img img = (case getbbox img of Some bbox \<Rightarrow> crop img bbox | None \<Rightarrow> img)"

text \<open>
  Lines 32 to 43: the zero-height guard, the scale factor and the new dimensions. The
  three outcomes are the \<^verbatim>\<open>continue\<close>, an exception and the size passed to \<^verbatim>\<open>resize\<close>.
\<close>

datatype sizing = ZeroHeight | Raised error | NewSize nat nat

definition new_dimensions :: "nat \<Rightarrow> nat \<Rightarrow> sizing" where
  "new_dimensions width height =
     (if height = 0 then ZeroHeight
      else case py_truediv (int TARGET_HEIGHT) (int height) of
             Inl e \<Rightarrow> Raised e
           | Inr scale_factor \<Rightarrow>
               (let new_width = py_int (py_float_mul (py_float (int width)) scale_factor);
                    new_height = int TARGET_HEIGHT;
                    new_width = max 1 new_width;
                    new_height = max 1 new_height
                in NewSize (nat new_width) (nat new_height)))"

text \<open>
  The body of the loop, lines 19 to 52, for one file name: every exception raised inside
  the \<^verbatim>\<open>try\<close> becomes the line "Error processing ...", and the loop goes on.
\<close>

definition process_one :: "pil \<Rightarrow> world \<Rightarrow> string \<Rightarrow> world" where
  "process_one env w filename =
     (let filepath = os_path_join BOOSTERS_DIR filename
      in case pil_open env w filepath of
           Inl e \<Rightarrow> print (ErrorProcessing filename e) w
         | Inr opened \<Rightarrow>
             (let img = convert env opened ''RGBA'';
                  cropped = cropped_img img;
                  (width, height) = img_size cropped
              in case new_dimensions width height of
                   ZeroHeight \<Rightarrow> print (Skipping filename) w
                 | Raised e \<Rightarrow> print (ErrorProcessing filename e) w
                 | NewSize new_width new_height \<Rightarrow>
                     (case resize env cropped (new_width, new_height) of
                        Inl e \<Rightarrow> print (ErrorProcessing filename e) w
                      | Inr resized_img \<Rightarrow>
                          (case save env w filepath resized_img of
                             (Some e, w') \<Rightarrow> print (ErrorProcessing filename e) w'
                           | (None, w') \<Rightarrow>
                               print (Processed filename new_width new_height) w'))))"

text \<open>
  \<^verbatim>\<open>process_booster_images\<close>. An exception of \<^verbatim>\<open>os.listdir\<close> is outside every handler and
  ends the program.
\<close>

definition process_booster_images :: "pil \<Rightarrow> world \<Rightarrow> error + world" where
  "process_booster_images env w =
     (case os_listdir w of
        Inl e \<Rightarrow> Inl e
      | Inr names \<Rightarrow>
          (let selected = image_files names
           in if selected = [] then Inr (print NoImagesFound w)
              else Inr (print ProcessingComplete
                         (foldl (process_one env) (print ProcessingStart w) selected))))"

text \<open>
  Whether the loop body gets as far as the call of \<^verbatim>\<open>save\<close>: the file opens and
  decodes, the height is not zero, and the resize succeeds.
\<close>

definition reaches_save :: "pil \<Rightarrow> world \<Rightarrow> string \<Rightarrow> bool" where
  "reaches_save env w filename =
     (case pil_open env w (os_path_join BOOSTERS_DIR filename) of
        Inl e \<Rightarrow> False
      | Inr opened \<Rightarrow>
          (let cropped = cropped_img (convert env opened ''RGBA'')
           in case new_dimensions (xsize cropped) (ysize cropped) of
                NewSize new_width new_height \<Rightarrow>
                  (case resize env cropped (new_width, new_height) of
                     Inl e \<Rightarrow> False
                   | Inr resized_img \<Rightarrow> True)
              | _ \<Rightarrow> False))"


subsection \<open>A sample directory\<close>

text \<open>
  Concrete inputs on which the definitions are run: four small images, a stand-in for the
  codecs that decodes by the first byte of a file, and a directory holding one file of
  each kind beside a text file and a sub-directory.
\<close>

definition opaque_red :: pixel where
  "opaque_red = \<lparr>red = 255, green = 0, blue = 0, alpha = 255\<rparr>"

definition tinted_clear :: pixel where
  "tinted_clear = \<lparr>red = 255, green = 255, blue = 255, alpha = 0\<rparr>"

definition bordered_image :: image where
  "bordered_image =
     \<lparr>mode = ''RGBA'', xsize = 5, ysize = 4,
      pix = (\<lambda>x y. if (x = 1 \<and> y = 1) \<or> (x = 3 \<and> y = 2) then opaque_red
                    else if x = 0 then tinted_clear else transparent)\<rparr>"

definition blank_image :: image where
  "blank_image = \<lparr>mode = ''RGBA'', xsize = 3, ysize = 2, pix = (\<lambda>x y. tinted_clear)\<rparr>"

definition empty_image :: image where
  "empty_image = \<lparr>mode = ''RGBA'', xsize = 4, ysize = 0, pix = (\<lambda>x y. transparent)\<rparr>"

definition photo_image :: image where
  "photo_image = \<lparr>mode = ''RGB'', xsize = 21, ysize = 7, pix = (\<lambda>x y. opaque_red)\<rparr>"

definition sample_pil :: pil where
  "sample_pil =
     \<lparr>decoder = (\<lambda>bytes. if bytes = [1] then Inr bordered_image
                       else if bytes = [2] then Inr blank_image
                       else if bytes = [3] then Inr empty_image
                       else if bytes = [4] then Inr photo_image
                       else Inl UnidentifiedImageError),
      converter = (\<lambda>img m x y. if has_alpha (mode img) then pix img x y
                                else (pix img x y)\<lparr>alpha := 255\<rparr>),
      lanczos = (\<lambda>img sz x y. pix img 0 0),
      encoder = (\<lambda>fmt img. Inr [7, of_nat (xsize img)])\<rparr>"

definition sample_world :: world where
  "sample_world =
     \<lparr>entries = Some [''notes.txt'', ''card.PNG'', ''blank.png'', ''empty.png'',
                       ''photo.jpg'', ''broken.png'', ''scans.png''],
      files = [''public/assets/boosters/notes.txt'' \<mapsto> File True True [0],
               ''public/assets/boosters/card.PNG'' \<mapsto> File True True [1],
               ''public/assets/boosters/blank.png'' \<mapsto> File True True [2],
               ''public/assets/boosters/empty.png'' \<mapsto> File True True [3],
               ''public/assets/boosters/photo.jpg'' \<mapsto> File True True [4],
               ''public/assets/boosters/broken.png'' \<mapsto> File True True [5],
               ''public/assets/boosters/scans.png'' \<mapsto> Directory],
      stdout = []\<rparr>"


definition text_only_world :: world where
  "text_only_world =
     \<lparr>entries = Some [''notes.txt''],
      files = [''public/assets/boosters/notes.txt'' \<mapsto> File True True [0]],
      stdout = []\<rparr>"

section \<open>Properties\<close>

subsection \<open>Auxiliary facts\<close>


lemma save_files_other: "q \<noteq> p \<Longrightarrow> files (snd (save env w p img)) q = files w q"
  by (simp add: save_def split: option.splits node.splits sum.splits prod.splits)


lemma process_one_files_other:
  "p \<noteq> os_path_join BOOSTERS_DIR f \<Longrightarrow> files (process_one env w f) p = files w p"
proof -
  assume p: "p \<noteq> os_path_join BOOSTERS_DIR f"
  have s: "\<And>img e w'. save env w (os_path_join BOOSTERS_DIR f) img = (e, w') \<Longrightarrow> files w' p = files w p"
    using save_files_other[OF p] by (metis snd_conv)
  show ?thesis
    by (auto simp: process_one_def print_def Let_def dest: s
        split: sum.splits sizing.splits prod.splits option.splits)
qed

lemma process_one_no_save:
  "\<not> reaches_save env w f \<Longrightarrow> \<exists>r. process_one env w f = print r w"
  by (auto simp: process_one_def reaches_save_def Let_def img_size_def
        split: sum.splits sizing.splits prod.splits option.splits)


lemma sample_path:
  "os_path_join BOOSTERS_DIR f = (if prefix ''/'' f then f else ''public/assets/boosters/'' @ f)"
  by (simp add: os_path_join_def BOOSTERS_DIR_def suffix_def)

lemma suffix_lower_iff:
  "suffix suf (str_lower f) \<longleftrightarrow> (\<exists>stem ext. f = stem @ ext \<and> str_lower ext = suf)"
proof
  assume "suffix suf (str_lower f)"
  then obtain zs where zs: "str_lower f = zs @ suf" by (auto simp: suffix_def)
  have "f = take (length zs) f @ drop (length zs) f" by simp
  moreover have "str_lower (drop (length zs) f) = drop (length zs) (str_lower f)"
    by (simp add: str_lower_def drop_map)
  then have "str_lower (drop (length zs) f) = suf"
    using zs by simp
  ultimately show "\<exists>stem ext. f = stem @ ext \<and> str_lower ext = suf" by blast
next
  assume "\<exists>stem ext. f = stem @ ext \<and> str_lower ext = suf"
  then obtain stem ext where "f = stem @ ext" "str_lower ext = suf" by blast
  then have "str_lower f = str_lower stem @ suf" by (simp add: str_lower_def)
  then show "suffix suf (str_lower f)" by (simp add: suffix_def)
qed

lemma is_image_name_iff:
  "is_image_name f \<longleftrightarrow>
     (\<exists>stem ext. f = stem @ ext \<and> str_lower ext \<in> {''.png'', ''.jpg'', ''.jpeg''})"
proof -
  have "is_image_name f \<longleftrightarrow>
          suffix ''.png'' (str_lower f) \<or> suffix ''.jpg'' (str_lower f) \<or> suffix ''.jpeg'' (str_lower f)"
    by (simp add: is_image_name_def endswith_def)
  also have "\<dots> \<longleftrightarrow> (\<exists>stem ext. f = stem @ ext \<and>
       (str_lower ext = ''.png'' \<or> str_lower ext = ''.jpg'' \<or> str_lower ext = ''.jpeg''))"
    unfolding suffix_lower_iff by blast
  finally show ?thesis by simp
qed

lemma open_directory:
  "files w (os_path_join BOOSTERS_DIR f) = Some Directory \<Longrightarrow>
   process_one env w f = print (ErrorProcessing f IsADirectoryError) w"
  by (simp add: process_one_def pil_open_def)

lemma mode_cropped_img: "mode (cropped_img img) = mode img"
  by (simp add: cropped_img_def crop_def split: option.splits prod.splits)

lemma new_dimensions_nonzero:
  "height \<noteq> 0 \<Longrightarrow> \<exists>nw. new_dimensions width height = NewSize nw 300 \<and> 1 \<le> nw"
  by (simp add: new_dimensions_def py_truediv_def TARGET_HEIGHT_def Let_def)

lemma resize_positive:
  "1 \<le> nw \<Longrightarrow> 1 \<le> nh \<Longrightarrow>
   \<exists>r. resize env img (nw, nh) = Inr r \<and> mode r = mode img \<and> img_size r = (nw, nh)"
  by (auto simp: resize_def img_size_def)

lemma save_jpeg_rgba:
  assumes "save_format p = Some ''JPEG''" and "files w p = Some (File rd True old)"
    and "mode img = ''RGBA''"
  shows "save env w p img =
           (Some (OSError ''cannot write mode RGBA as JPEG''),
            w\<lparr>files := (files w)(p \<mapsto> File rd True [])\<rparr>)"
  using assms by (simp add: save_def save_handler_def jpeg_rawmodes_def)

lemma set_data_columns:
  "set (data_columns img) = {x. x < xsize img \<and> (\<exists>y<ysize img. has_data img x y)}"
  by (auto simp: data_columns_def list_ex_iff)

lemma set_data_rows:
  "set (data_rows img) = {y. y < ysize img \<and> (\<exists>x<xsize img. has_data img x y)}"
  by (auto simp: data_rows_def list_ex_iff)

lemma sorted_data_columns: "sorted (data_columns img)"
  by (simp add: data_columns_def sorted_wrt_filter)

lemma sorted_data_rows: "sorted (data_rows img)"
  by (simp add: data_rows_def sorted_wrt_filter)

lemma sorted_hd_le: "sorted xs \<Longrightarrow> x \<in> set xs \<Longrightarrow> hd xs \<le> (x::nat)"
  by (cases xs) auto

lemma sorted_le_last: "sorted xs \<Longrightarrow> x \<in> set xs \<Longrightarrow> (x::nat) \<le> last xs"
  by (induction xs) (auto split: if_splits)



lemma has_data_RGBA: "mode img = ''RGBA'' \<Longrightarrow> has_data img x y = (alpha (pix img x y) \<noteq> 0)"
  by (simp add: has_data_def has_alpha_def)








lemma round_double_tenth: "round_double (1 / 10) = 3602879701896397 / 2 ^ 55"
  by code_simp

subsection \<open>The claims\<close>

text \<open>
  Claim C8. When no listed name passes the extension filter, the program prints the
  "no image files found" line and nothing else, writes no file, and returns normally.
\<close>

theorem no_images_found:
  assumes "os_listdir w = Inr names" and "image_files names = []"
  shows "process_booster_images env w = Inr (print NoImagesFound w) \<and>
         files (print NoImagesFound w) = files w \<and>
         stdout (print NoImagesFound w) = stdout w @ [NoImagesFound]"
  using assms by (simp add: process_booster_images_def print_def)

theorem no_images_found_witness:
  "os_listdir text_only_world = Inr [''notes.txt''] \<and> image_files [''notes.txt''] = [] \<and>
   process_booster_images sample_pil text_only_world = Inr (print NoImagesFound text_only_world) \<and>
   files (print NoImagesFound text_only_world) = files text_only_world \<and>
   stdout (print NoImagesFound text_only_world) = stdout text_only_world @ [NoImagesFound]"
proof -
  have l: "os_listdir text_only_world = Inr [''notes.txt'']"
    by (simp add: os_listdir_def text_only_world_def)
  have s: "image_files [''notes.txt''] = []"
    by code_simp
  show ?thesis
    using l s no_images_found [OF l s, of sample_pil] by simp
qed



text \<open>
  Claim C6. Processing one file changes no path other than that file's, and when the loop
  body does not get as far as the call of \<open>save\<close> (the file does not open or decode, its
  height is zero, or the resize fails) no file changes at all.
\<close>

theorem only_save_writes:
  "(\<forall>p. p \<noteq> os_path_join BOOSTERS_DIR filename \<longrightarrow>
        files (process_one env w filename) p = files w p) \<and>
   (\<not> reaches_save env w filename \<longrightarrow> files (process_one env w filename) = files w)"
proof -
  have "files (process_one env w filename) = files w" if n: "\<not> reaches_save env w filename"
  proof -
    obtain r where "process_one env w filename = print r w"
      using process_one_no_save [OF n] by blast
    then show ?thesis by (simp add: print_def)
  qed
  then show ?thesis using process_one_files_other by blast
qed

theorem only_save_writes_witness:
  "''public/assets/boosters/notes.txt'' \<noteq> os_path_join BOOSTERS_DIR ''broken.png'' \<and>
   files (process_one sample_pil sample_world ''broken.png'') ''public/assets/boosters/notes.txt''
     = files sample_world ''public/assets/boosters/notes.txt'' \<and>
   \<not> reaches_save sample_pil sample_world ''broken.png'' \<and>
   files (process_one sample_pil sample_world ''broken.png'') = files sample_world"
proof -
  have p: "''public/assets/boosters/notes.txt'' \<noteq> os_path_join BOOSTERS_DIR ''broken.png''"
    by (simp add: sample_path)
  have r: "\<not> reaches_save sample_pil sample_world ''broken.png''"
    by (simp add: reaches_save_def sample_path pil_open_def sample_world_def sample_pil_def)
  show ?thesis
    using p r only_save_writes [of "''broken.png''" sample_pil sample_world] by blast
qed

text \<open>
  Claim C5. When the cropped image has height zero, the loop body prints the skip line
  naming the file and does nothing else: every file is as it was, and the loop goes on
  with the remaining names.
\<close>

theorem zero_height_skipped:
  assumes "pil_open env w (os_path_join BOOSTERS_DIR filename) = Inr opened"
    and "ysize (cropped_img (convert env opened ''RGBA'')) = 0"
  shows "process_one env w filename = print (Skipping filename) w \<and>
         files (process_one env w filename) = files w \<and>
         foldl (process_one env) w (filename # rest)
           = foldl (process_one env) (print (Skipping filename) w) rest"
proof -
  have "process_one env w filename = print (Skipping filename) w"
    using assms by (simp add: process_one_def Let_def img_size_def new_dimensions_def)
  then show ?thesis by (simp add: print_def)
qed

theorem zero_height_skipped_witness:
  "pil_open sample_pil sample_world (os_path_join BOOSTERS_DIR ''empty.png'') = Inr empty_image \<and>
   ysize (cropped_img (convert sample_pil empty_image ''RGBA'')) = 0 \<and>
   process_one sample_pil sample_world ''empty.png'' = print (Skipping ''empty.png'') sample_world \<and>
   files (process_one sample_pil sample_world ''empty.png'') = files sample_world \<and>
   foldl (process_one sample_pil) sample_world [''empty.png'', ''photo.jpg'']
     = foldl (process_one sample_pil) (print (Skipping ''empty.png'') sample_world) [''photo.jpg'']"
proof -
  have o: "pil_open sample_pil sample_world (os_path_join BOOSTERS_DIR ''empty.png'') = Inr empty_image"
    by (simp add: sample_path pil_open_def sample_world_def sample_pil_def)
  have z: "ysize (cropped_img (convert sample_pil empty_image ''RGBA'')) = 0"
    by code_simp
  show ?thesis
    using o z zero_height_skipped [OF o z, of "[''photo.jpg'']"] by blast
qed

text \<open>
  Claim C10. The division that computes the scale factor is always defined: the guard on a
  zero height runs first, so the sizing step never raises (in particular never the
  \<open>ZeroDivisionError\<close> that the division gives for a zero divisor), and it takes the
  zero-height exit exactly when the height is zero.
\<close>

theorem scale_division_defined:
  "new_dimensions width height \<noteq> Raised e \<and>
   (new_dimensions width height = ZeroHeight) = (height = 0) \<and>
   py_truediv (int TARGET_HEIGHT) 0 = Inl ZeroDivisionError"
  by (simp add: new_dimensions_def py_truediv_def Let_def)

text \<open>
  Claim C9, as amended. The selection is by name alone: the selected names are the listed
  names that are some stem followed by an extension equal, letter case aside, to
  \<^verbatim>\<open>.png\<close>, \<^verbatim>\<open>.jpg\<close> or \<^verbatim>\<open>.jpeg\<close>, in listing order. What kind of entry a name stands
  for is not looked at; a sub-directory that passes is handed to the loop body, where
  opening it fails and is reported as that entry's error.
\<close>

theorem selection_by_name:
  "image_files names =
     filter (\<lambda>f. \<exists>stem ext. f = stem @ ext \<and> str_lower ext \<in> {''.png'', ''.jpg'', ''.jpeg''}) names \<and>
   (files w (os_path_join BOOSTERS_DIR filename) = Some Directory \<longrightarrow>
      process_one env w filename = print (ErrorProcessing filename IsADirectoryError) w)"
proof -
  have "is_image_name = (\<lambda>f. \<exists>stem ext. f = stem @ ext \<and> str_lower ext \<in> {''.png'', ''.jpg'', ''.jpeg''})"
    using is_image_name_iff by (intro ext) 
  then have "image_files names =
     filter (\<lambda>f. \<exists>stem ext. f = stem @ ext \<and> str_lower ext \<in> {''.png'', ''.jpg'', ''.jpeg''}) names"
    unfolding image_files_def by (rule arg_cong)
  then show ?thesis using open_directory by blast
qed

theorem selection_by_name_witness:
  "files sample_world (os_path_join BOOSTERS_DIR ''scans.png'') = Some Directory \<and>
   process_one sample_pil sample_world ''scans.png''
     = print (ErrorProcessing ''scans.png'' IsADirectoryError) sample_world \<and>
   image_files [''a.PNG'', ''b.txt''] =
     filter (\<lambda>f. \<exists>stem ext. f = stem @ ext \<and> str_lower ext \<in> {''.png'', ''.jpg'', ''.jpeg''})
       [''a.PNG'', ''b.txt'']"
proof -
  have d: "files sample_world (os_path_join BOOSTERS_DIR ''scans.png'') = Some Directory"
    by (simp add: sample_world_def sample_path)
  show ?thesis
    using d selection_by_name [of "[''a.PNG'', ''b.txt'']" sample_world "''scans.png''" sample_pil]
    by blast
qed

text \<open>
  Claim C9 as stated fails: in the sample directory the entry \<^verbatim>\<open>scans.png\<close> is a
  sub-directory, and it is among the selected names.
\<close>

theorem subdirectory_selected:
  "os_listdir sample_world = Inr [''notes.txt'', ''card.PNG'', ''blank.png'', ''empty.png'',
                       ''photo.jpg'', ''broken.png'', ''scans.png''] \<and>
   files sample_world (os_path_join BOOSTERS_DIR ''scans.png'') = Some Directory \<and>
   image_files [''notes.txt'', ''card.PNG'', ''blank.png'', ''empty.png'',
                       ''photo.jpg'', ''broken.png'', ''scans.png'']
     = [''card.PNG'', ''blank.png'', ''empty.png'', ''photo.jpg'', ''broken.png'', ''scans.png'']"
proof -
  have "image_files [''notes.txt'', ''card.PNG'', ''blank.png'', ''empty.png'',
                       ''photo.jpg'', ''broken.png'', ''scans.png'']
     = [''card.PNG'', ''blank.png'', ''empty.png'', ''photo.jpg'', ''broken.png'', ''scans.png'']"
    by code_simp
  then show ?thesis
    by (simp add: os_listdir_def sample_world_def sample_path)
qed

text \<open>
  Claim C2. The claim promises that a \<^verbatim>\<open>.jpg\<close> or \<^verbatim>\<open>.jpeg\<close> input is saved back as JPEG.
  The code does not do that: the image it saves is always in mode RGBA, which the JPEG
  encoder refuses, so for every readable, writable, decodable JPEG-named file of non-zero
  cropped height the loop body ends in the error line, and the file, already opened for
  writing, is left empty.
\<close>

theorem jpeg_save_rejected:
  assumes "save_format (os_path_join BOOSTERS_DIR filename) = Some ''JPEG''"
    and "files w (os_path_join BOOSTERS_DIR filename) = Some (File True True bytes)"
    and "decoder env bytes = Inr opened"
    and "ysize (cropped_img (convert env opened ''RGBA'')) \<noteq> 0"
  shows "process_one env w filename =
           print (ErrorProcessing filename (OSError ''cannot write mode RGBA as JPEG''))
             (w\<lparr>files := (files w)(os_path_join BOOSTERS_DIR filename \<mapsto> File True True [])\<rparr>)"
proof -
  let ?p = "os_path_join BOOSTERS_DIR filename"
  let ?c = "cropped_img (convert env opened ''RGBA'')"
  have o: "pil_open env w ?p = Inr opened"
    using assms(2,3) by (simp add: pil_open_def)
  obtain nw where nw: "new_dimensions (xsize ?c) (ysize ?c) = NewSize nw 300" "1 \<le> nw"
    using new_dimensions_nonzero [OF assms(4)] by blast
  obtain r where r: "resize env ?c (nw, 300) = Inr r" "mode r = mode ?c"
    using resize_positive [OF nw(2), of 300 env ?c] by auto
  have "mode r = ''RGBA''"
    using r(2) by (simp add: mode_cropped_img convert_def)
  then have s: "save env w ?p r =
           (Some (OSError ''cannot write mode RGBA as JPEG''),
            w\<lparr>files := (files w)(?p \<mapsto> File True True [])\<rparr>)"
    using save_jpeg_rgba [OF assms(1,2)] by simp
  show ?thesis
    using o nw(1) r(1) s by (simp add: process_one_def Let_def img_size_def)
qed

theorem jpeg_save_rejected_witness:
  "save_format (os_path_join BOOSTERS_DIR ''photo.jpg'') = Some ''JPEG'' \<and>
   files sample_world (os_path_join BOOSTERS_DIR ''photo.jpg'') = Some (File True True [4]) \<and>
   decoder sample_pil [4] = Inr photo_image \<and>
   ysize (cropped_img (convert sample_pil photo_image ''RGBA'')) \<noteq> 0 \<and>
   process_one sample_pil sample_world ''photo.jpg'' =
           print (ErrorProcessing ''photo.jpg'' (OSError ''cannot write mode RGBA as JPEG''))
             (sample_world\<lparr>files := (files sample_world)(os_path_join BOOSTERS_DIR ''photo.jpg'' \<mapsto> File True True [])\<rparr>)"
proof -
  have a: "save_format (os_path_join BOOSTERS_DIR ''photo.jpg'') = Some ''JPEG''"
    by code_simp
  have b: "files sample_world (os_path_join BOOSTERS_DIR ''photo.jpg'') = Some (File True True [4])"
    by (simp add: sample_world_def sample_path)
  have c: "decoder sample_pil [4] = Inr photo_image"
    by (simp add: sample_pil_def)
  have d: "ysize (cropped_img (convert sample_pil photo_image ''RGBA'')) \<noteq> 0"
    by code_simp
  show ?thesis
    using a b c d jpeg_save_rejected [OF a b c d] by blast
qed

text \<open>
  Claim C3. For an RGBA image (what \<open>convert\<close> hands to the crop step) with at least one
  pixel of non-zero alpha, \<open>getbbox\<close> returns a box inside the image that contains every
  pixel of non-zero alpha, whatever its colour bands hold, and whose first and last column
  and first and last row each hold such a pixel, so no margin can shrink further; the
  cropped image is exactly that rectangle, pixel for pixel.
\<close>

theorem bbox_minimal:
  assumes "mode img = ''RGBA''"
    and "x0 < xsize img" and "y0 < ysize img" and "alpha (pix img x0 y0) \<noteq> 0"
  shows "\<exists>l u r b.
           getbbox img = Some (l, u, r, b) \<and>
           l < r \<and> r \<le> xsize img \<and> u < b \<and> b \<le> ysize img \<and>
           (\<forall>x y. x < xsize img \<and> y < ysize img \<and> alpha (pix img x y) \<noteq> 0
                  \<longrightarrow> l \<le> x \<and> x < r \<and> u \<le> y \<and> y < b) \<and>
           (\<exists>y<ysize img. alpha (pix img l y) \<noteq> 0) \<and>
           (\<exists>y<ysize img. alpha (pix img (r - 1) y) \<noteq> 0) \<and>
           (\<exists>x<xsize img. alpha (pix img x u) \<noteq> 0) \<and>
           (\<exists>x<xsize img. alpha (pix img x (b - 1)) \<noteq> 0) \<and>
           cropped_img img = crop img (l, u, r, b) \<and>
           img_size (cropped_img img) = (r - l, b - u) \<and>
           (\<forall>x y. x < r - l \<and> y < b - u
                  \<longrightarrow> pix (cropped_img img) x y = pix img (l + x) (u + y))"
proof -
  let ?xs = "data_columns img" and ?ys = "data_rows img"
  note hd = has_data_RGBA [OF assms(1)]
  have mem: "x \<in> set ?xs \<and> y \<in> set ?ys"
    if "x < xsize img" "y < ysize img" "alpha (pix img x y) \<noteq> 0" for x y
    using that by (auto simp: set_data_columns set_data_rows hd)
  have ne: "?xs \<noteq> []" "?ys \<noteq> []"
    using mem [OF assms(2,3,4)] by auto
  have g: "getbbox img = Some (hd ?xs, hd ?ys, Suc (last ?xs), Suc (last ?ys))"
    using ne by (simp add: getbbox_def Let_def)
  have hx: "hd ?xs \<in> set ?xs" and lx: "last ?xs \<in> set ?xs"
    and hy: "hd ?ys \<in> set ?ys" and ly: "last ?ys \<in> set ?ys"
    using ne by simp_all
  have b1: "hd ?xs \<le> last ?xs"
    using sorted_hd_le [OF sorted_data_columns lx] .
  have b2: "hd ?ys \<le> last ?ys"
    using sorted_hd_le [OF sorted_data_rows ly] .
  have b3: "last ?xs < xsize img" "last ?ys < ysize img"
    using lx ly by (auto simp: set_data_columns set_data_rows)
  have inside: "hd ?xs \<le> x \<and> x < Suc (last ?xs) \<and> hd ?ys \<le> y \<and> y < Suc (last ?ys)"
    if "x < xsize img \<and> y < ysize img \<and> alpha (pix img x y) \<noteq> 0" for x y
  proof -
    have "x \<in> set ?xs" "y \<in> set ?ys" using mem that by auto
    then show ?thesis
      using sorted_hd_le [OF sorted_data_columns] sorted_le_last [OF sorted_data_columns]
        sorted_hd_le [OF sorted_data_rows] sorted_le_last [OF sorted_data_rows]
      by (simp add: less_Suc_eq_le)
  qed
  have e1: "\<exists>y<ysize img. alpha (pix img (hd ?xs) y) \<noteq> 0"
    using hx by (auto simp: set_data_columns hd)
  have e2: "\<exists>y<ysize img. alpha (pix img (Suc (last ?xs) - 1) y) \<noteq> 0"
    using lx by (auto simp: set_data_columns hd)
  have e3: "\<exists>x<xsize img. alpha (pix img x (hd ?ys)) \<noteq> 0"
    using hy by (auto simp: set_data_rows hd)
  have e4: "\<exists>x<xsize img. alpha (pix img x (Suc (last ?ys) - 1)) \<noteq> 0"
    using ly by (auto simp: set_data_rows hd)
  have c: "cropped_img img = crop img (hd ?xs, hd ?ys, Suc (last ?xs), Suc (last ?ys))"
    using g by (simp add: cropped_img_def)
  have sz: "img_size (cropped_img img) = (Suc (last ?xs) - hd ?xs, Suc (last ?ys) - hd ?ys)"
    unfolding c by (simp add: crop_def img_size_def)
  have px: "pix (cropped_img img) x y = pix img (hd ?xs + x) (hd ?ys + y)"
    if "x < Suc (last ?xs) - hd ?xs \<and> y < Suc (last ?ys) - hd ?ys" for x y
  proof -
    have "hd ?xs + x < xsize img" "hd ?ys + y < ysize img"
      using that b3 by linarith+
    then show ?thesis unfolding c by (simp add: crop_def)
  qed
  have r1: "hd ?xs < Suc (last ?xs)" "Suc (last ?xs) \<le> xsize img"
    "hd ?ys < Suc (last ?ys)" "Suc (last ?ys) \<le> ysize img"
    using b1 b2 b3 by simp_all
  show ?thesis
    apply (rule exI [of _ "hd ?xs"], rule exI [of _ "hd ?ys"])
    apply (rule exI [of _ "Suc (last ?xs)"], rule exI [of _ "Suc (last ?ys)"])
    using g r1 inside e1 e2 e3 e4 c sz px by blast
qed

theorem bbox_minimal_witness:
  "mode bordered_image = ''RGBA'' \<and> 1 < xsize bordered_image \<and> 1 < ysize bordered_image \<and>
   alpha (pix bordered_image 1 1) \<noteq> 0 \<and>
   getbbox bordered_image = Some (1, 1, 4, 3) \<and>
   (\<exists>l u r b.
           getbbox bordered_image = Some (l, u, r, b) \<and>
           l < r \<and> r \<le> xsize bordered_image \<and> u < b \<and> b \<le> ysize bordered_image \<and>
           (\<forall>x y. x < xsize bordered_image \<and> y < ysize bordered_image \<and> alpha (pix bordered_image x y) \<noteq> 0
                  \<longrightarrow> l \<le> x \<and> x < r \<and> u \<le> y \<and> y < b) \<and>
           (\<exists>y<ysize bordered_image. alpha (pix bordered_image l y) \<noteq> 0) \<and>
           (\<exists>y<ysize bordered_image. alpha (pix bordered_image (r - 1) y) \<noteq> 0) \<and>
           (\<exists>x<xsize bordered_image. alpha (pix bordered_image x u) \<noteq> 0) \<and>
           (\<exists>x<xsize bordered_image. alpha (pix bordered_image x (b - 1)) \<noteq> 0) \<and>
           cropped_img bordered_image = crop bordered_image (l, u, r, b) \<and>
           img_size (cropped_img bordered_image) = (r - l, b - u) \<and>
           (\<forall>x y. x < r - l \<and> y < b - u
                  \<longrightarrow> pix (cropped_img bordered_image) x y = pix bordered_image (l + x) (u + y)))"
proof -
  have m: "mode bordered_image = ''RGBA''" by (simp add: bordered_image_def)
  have x: "1 < xsize bordered_image" by (simp add: bordered_image_def)
  have y: "1 < ysize bordered_image" by (simp add: bordered_image_def)
  have a: "alpha (pix bordered_image 1 1) \<noteq> 0" by (simp add: bordered_image_def opaque_red_def)
  have g: "getbbox bordered_image = Some (1, 1, 4, 3)" by code_simp
  show ?thesis
    using m x y a g bbox_minimal [OF m x y a] by blast
qed







end
